theory Spec2Isabelle
  imports Complex_Main
begin

section \<open>Batch calculator agent: the arithmetic of the calculator tool\<close>

text \<open>
  The development embeds \<^verbatim>\<open>examples/batch_processing/batch_calculator_agent.py\<close>:
  the request builder, the calculator (\<^verbatim>\<open>_perform_calculation\<close>), the tool dispatcher
  (\<^verbatim>\<open>_process_tool_use\<close>) and the polling loop (\<^verbatim>\<open>_monitor_batch_progress\<close>).

  A decoded JSON number is a Python \<^verbatim>\<open>int\<close> (unbounded) or a Python \<^verbatim>\<open>float\<close>. Integer
  arithmetic is exact and is written out. Float arithmetic is the interpreter's: its
  rounding, the conversion of an integer to a float (which raises
  \<^verbatim>\<open>OverflowError\<close> when the integer is too large), the true division of two integers
  and the printed form of a float are taken as parameters, collected in the record
  \<open>python\<close>. Every theorem below holds for every such interpreter.
\<close>

subsection \<open>Numbers, exceptions and the interpreter's primitives\<close>

datatype 'f pynum = PyInt int | PyFloat 'f

datatype py_exception =
    ValueError string
  | KeyError string
  | IndexError
  | ZeroDivisionError
  | OverflowError

record 'f python =
  float_of_int :: "int \<Rightarrow> 'f option"
  int_truediv :: "int \<Rightarrow> int \<Rightarrow> 'f option"
  fadd :: "'f \<Rightarrow> 'f \<Rightarrow> 'f"
  fsub :: "'f \<Rightarrow> 'f \<Rightarrow> 'f"
  fmul :: "'f \<Rightarrow> 'f \<Rightarrow> 'f"
  fdiv :: "'f \<Rightarrow> 'f \<Rightarrow> 'f"
  fis_zero :: "'f \<Rightarrow> bool"
  float_repr :: "'f \<Rightarrow> string"
  exc_text :: "py_exception \<Rightarrow> string"

text \<open>
  \<open>float_of_int\<close> and \<open>int_truediv\<close> answer \<open>None\<close> where the interpreter raises
  \<^verbatim>\<open>OverflowError\<close>; \<open>int_truediv\<close> is asked only for a divisor other than zero.
  \<open>exc_text\<close> is the message of an exception the interpreter raises by itself.
\<close>

definition is_float :: "'f pynum \<Rightarrow> bool" where
  "is_float x = (case x of PyInt _ \<Rightarrow> False | PyFloat _ \<Rightarrow> True)"

definition num_is_zero :: "'f python \<Rightarrow> 'f pynum \<Rightarrow> bool" where
  "num_is_zero py x = (case x of PyInt n \<Rightarrow> n = 0 | PyFloat f \<Rightarrow> fis_zero py f)"

definition to_float :: "'f python \<Rightarrow> 'f pynum \<Rightarrow> py_exception + 'f" where
  "to_float py x =
     (case x of
        PyFloat f \<Rightarrow> Inr f
      | PyInt n \<Rightarrow> (case float_of_int py n of None \<Rightarrow> Inl OverflowError | Some f \<Rightarrow> Inr f))"

definition py_arith ::
  "'f python \<Rightarrow> (int \<Rightarrow> int \<Rightarrow> int) \<Rightarrow> ('f \<Rightarrow> 'f \<Rightarrow> 'f) \<Rightarrow> 'f pynum \<Rightarrow> 'f pynum
     \<Rightarrow> py_exception + 'f pynum" where
  "py_arith py iop fop a b =
     (case (a, b) of
        (PyInt m, PyInt n) \<Rightarrow> Inr (PyInt (iop m n))
      | _ \<Rightarrow>
          (case to_float py a of
             Inl e \<Rightarrow> Inl e
           | Inr x \<Rightarrow>
               (case to_float py b of
                  Inl e \<Rightarrow> Inl e
                | Inr y \<Rightarrow> Inr (PyFloat (fop x y)))))"

definition py_add :: "'f python \<Rightarrow> 'f pynum \<Rightarrow> 'f pynum \<Rightarrow> py_exception + 'f pynum" where
  "py_add py = py_arith py (\<lambda>m n. m + n) (fadd py)"

definition py_sub :: "'f python \<Rightarrow> 'f pynum \<Rightarrow> 'f pynum \<Rightarrow> py_exception + 'f pynum" where
  "py_sub py = py_arith py (\<lambda>m n. m - n) (fsub py)"

definition py_mul :: "'f python \<Rightarrow> 'f pynum \<Rightarrow> 'f pynum \<Rightarrow> py_exception + 'f pynum" where
  "py_mul py = py_arith py (\<lambda>m n. m * n) (fmul py)"

text \<open>
  True division \<^verbatim>\<open>a / b\<close>. Two integers: a zero divisor raises, otherwise the
  interpreter divides. Otherwise both operands become floats, the left one first, and
  a zero divisor raises; an integer divisor is zero as a float exactly when it is 0.
\<close>

definition py_truediv :: "'f python \<Rightarrow> 'f pynum \<Rightarrow> 'f pynum \<Rightarrow> py_exception + 'f pynum" where
  "py_truediv py a b =
     (case (a, b) of
        (PyInt m, PyInt n) \<Rightarrow>
          (if n = 0 then Inl ZeroDivisionError
           else (case int_truediv py m n of
                   None \<Rightarrow> Inl OverflowError
                 | Some q \<Rightarrow> Inr (PyFloat q)))
      | (PyFloat x, PyInt n) \<Rightarrow>
          (if n = 0 then Inl ZeroDivisionError
           else (case float_of_int py n of
                   None \<Rightarrow> Inl OverflowError
                 | Some y \<Rightarrow> Inr (PyFloat (fdiv py x y))))
      | (_, PyFloat y) \<Rightarrow>
          (case to_float py a of
             Inl e \<Rightarrow> Inl e
           | Inr x \<Rightarrow> (if fis_zero py y then Inl ZeroDivisionError
                       else Inr (PyFloat (fdiv py x y)))))"

subsection \<open>The calculator\<close>

text \<open>
  The builtin \<^verbatim>\<open>sum\<close>: it starts from the integer 0 and adds from left to right.
  On integers this is exact. On floats a recent interpreter may compensate the rounding
  error of the additions; how a float sum is rounded belongs to the interpreter and is
  stated by no theorem below.
\<close>

fun py_sum_from :: "'f python \<Rightarrow> 'f pynum \<Rightarrow> 'f pynum list \<Rightarrow> py_exception + 'f pynum" where
  "py_sum_from py acc [] = Inr acc"
| "py_sum_from py acc (x # xs) =
     (case py_add py acc x of Inl e \<Rightarrow> Inl e | Inr acc' \<Rightarrow> py_sum_from py acc' xs)"

definition py_sum :: "'f python \<Rightarrow> 'f pynum list \<Rightarrow> py_exception + 'f pynum" where
  "py_sum py xs = py_sum_from py (PyInt 0) xs"

text \<open>\<^verbatim>\<open>for num in numbers: result *= num\<close>\<close>

fun multiply_loop :: "'f python \<Rightarrow> 'f pynum \<Rightarrow> 'f pynum list \<Rightarrow> py_exception + 'f pynum" where
  "multiply_loop py result [] = Inr result"
| "multiply_loop py result (num # nums) =
     (case py_mul py result num of Inl e \<Rightarrow> Inl e | Inr r \<Rightarrow> multiply_loop py r nums)"

text \<open>\<^verbatim>\<open>for num in numbers[1:]: result /= num\<close>\<close>

fun divide_loop :: "'f python \<Rightarrow> 'f pynum \<Rightarrow> 'f pynum list \<Rightarrow> py_exception + 'f pynum" where
  "divide_loop py result [] = Inr result"
| "divide_loop py result (num # nums) =
     (case py_truediv py result num of Inl e \<Rightarrow> Inl e | Inr r \<Rightarrow> divide_loop py r nums)"

text \<open>
  \<^verbatim>\<open>_perform_calculation(operation, numbers)\<close>. \<^verbatim>\<open>numbers[0]\<close> raises
  \<^verbatim>\<open>IndexError\<close> on the empty list; in \<^verbatim>\<open>numbers[0] - sum(numbers[1:])\<close> the left
  operand is read first.
\<close>

definition perform_calculation ::
  "'f python \<Rightarrow> string \<Rightarrow> 'f pynum list \<Rightarrow> py_exception + 'f pynum" where
  "perform_calculation py operation numbers =
     (if operation = ''add'' then py_sum py numbers
      else if operation = ''subtract'' then
        (case numbers of
           [] \<Rightarrow> Inl IndexError
         | first # rest \<Rightarrow>
             (case py_sum py rest of Inl e \<Rightarrow> Inl e | Inr s \<Rightarrow> py_sub py first s))
      else if operation = ''multiply'' then multiply_loop py (PyInt 1) numbers
      else if operation = ''divide'' then
        (case numbers of
           [] \<Rightarrow> Inl IndexError
         | first # rest \<Rightarrow> divide_loop py first rest)
      else Inl (ValueError (''Unsupported operation: '' @ operation)))"

subsection \<open>Text: the printed form of a number and of an exception\<close>

fun dec_digits :: "nat \<Rightarrow> string" where
  "dec_digits n =
     (if n < 10 then [''0123456789'' ! n]
      else dec_digits (n div 10) @ [''0123456789'' ! (n mod 10)])"

declare dec_digits.simps [simp del]

definition str_int :: "int \<Rightarrow> string" where
  "str_int n = (if n < 0 then ''-'' @ dec_digits (nat (- n)) else dec_digits (nat n))"

text \<open>
  \<^verbatim>\<open>str(result)\<close>, as the f-string formats it. The interpreter's optional limit on the
  number of digits of such a conversion is outside the model.
\<close>

definition py_str :: "'f python \<Rightarrow> 'f pynum \<Rightarrow> string" where
  "py_str py v = (case v of PyInt n \<Rightarrow> str_int n | PyFloat f \<Rightarrow> float_repr py f)"

text \<open>
  \<^verbatim>\<open>str(e)\<close>: the message of a \<^verbatim>\<open>ValueError\<close>, the quoted key of a
  \<^verbatim>\<open>KeyError\<close> (the keys looked up are the literals \<^verbatim>\<open>operation\<close> and
  \<^verbatim>\<open>numbers\<close>), the interpreter's own text otherwise.
\<close>

definition str_exception :: "'f python \<Rightarrow> py_exception \<Rightarrow> string" where
  "str_exception py e =
     (case e of
        ValueError m \<Rightarrow> m
      | KeyError k \<Rightarrow> [CHR 0x27] @ k @ [CHR 0x27]
      | _ \<Rightarrow> exc_text py e)"

subsection \<open>The tool dispatcher\<close>

text \<open>
  The input dictionary of a tool-use block is read at two keys; a key may be missing,
  and a key that is present holds a value of the type the tool schema declares (a
  string, a list of numbers). A message may lack the attribute \<^verbatim>\<open>content\<close>. The
  console output of the dispatcher is not part of the model.
\<close>

record 'f tool_input =
  operation :: "string option"
  numbers :: "'f pynum list option"

record 'f content_block =
  block_type :: string
  block_name :: string
  block_input :: "'f tool_input"

record 'f message =
  content :: "'f content_block list option"

text \<open>
  The body of the \<^verbatim>\<open>try\<close>: both subscripts are evaluated, in order, before the
  call; a missing key raises \<^verbatim>\<open>KeyError\<close>.
\<close>

definition calculate_input :: "'f python \<Rightarrow> 'f tool_input \<Rightarrow> py_exception + 'f pynum" where
  "calculate_input py inp =
     (case operation inp of
        None \<Rightarrow> Inl (KeyError ''operation'')
      | Some opn \<Rightarrow>
          (case numbers inp of
             None \<Rightarrow> Inl (KeyError ''numbers'')
           | Some nums \<Rightarrow> perform_calculation py opn nums))"

definition tool_use_reply :: "'f python \<Rightarrow> 'f tool_input \<Rightarrow> string" where
  "tool_use_reply py inp =
     (case calculate_input py inp of
        Inr result \<Rightarrow> ''Result: '' @ py_str py result
      | Inl e \<Rightarrow> ''Error during calculation: '' @ str_exception py e)"

text \<open>\<^verbatim>\<open>for content in message.content\<close>: the first tool-use block returns.\<close>

fun scan_content :: "'f python \<Rightarrow> 'f content_block list \<Rightarrow> string" where
  "scan_content py [] = ''No tool use found in message''"
| "scan_content py (c # cs) =
     (if block_type c = ''tool_use'' then tool_use_reply py (block_input c)
      else scan_content py cs)"

definition process_tool_use :: "'f python \<Rightarrow> 'f message \<Rightarrow> string" where
  "process_tool_use py msg =
     (case content msg of
        None \<Rightarrow> ''Error: No content in message''
      | Some cs \<Rightarrow> scan_content py cs)"

subsection \<open>The request builder\<close>

text \<open>
  Dictionaries that are built once and handed to the service are kept as JSON values;
  a dictionary literal is the list of its items in the order written.
\<close>

datatype json = JString string | JArray "json list" | JObject "(string \<times> json) list"

text \<open>\<^verbatim>\<open>_define_calculator_tool()\<close>\<close>

definition define_calculator_tool :: json where
  "define_calculator_tool =
     JObject
      [(''name'', JString ''calculate''),
       (''description'', JString ''A simple calculator that can perform basic math operations''),
       (''input_schema'',
          JObject
           [(''type'', JString ''object''),
            (''properties'',
               JObject
                [(''operation'',
                    JObject
                     [(''type'', JString ''string''),
                      (''enum'',
                         JArray [JString ''add'', JString ''subtract'',
                                 JString ''multiply'', JString ''divide'']),
                      (''description'', JString ''The math operation to perform'')]),
                 (''numbers'',
                    JObject
                     [(''type'', JString ''array''),
                      (''items'', JObject [(''type'', JString ''number'')]),
                      (''description'', JString ''The numbers to perform the operation on'')])]),
            (''required'', JArray [JString ''operation'', JString ''numbers''])])]"

text \<open>The agent object: the tool definition it was initialised with.\<close>

record agent =
  calculator_tool :: json

definition init_agent :: agent where
  "init_agent = \<lparr>calculator_tool = define_calculator_tool\<rparr>"

record chat_message =
  role :: string
  text_content :: string

record request_params =
  model :: string
  max_tokens :: nat
  tools :: "json list"
  system :: string
  messages :: "chat_message list"

record batch_request =
  custom_id :: string
  params :: request_params

definition system_prompt :: string where
  "system_prompt =
     [CHR 0x0A] @ ''        You are a helpful calculator assistant. When users ask you to perform calculations, ''
     @ [CHR 0x0A] @ ''        use the calculate tool directly without explaining what you'' @ [CHR 0x27]
     @ ''re going to do first.'' @ [CHR 0x0A] @ ''        ''"

text \<open>The list comprehension over \<^verbatim>\<open>enumerate(questions)\<close>.\<close>

definition create_batch_requests :: "agent \<Rightarrow> string list \<Rightarrow> batch_request list" where
  "create_batch_requests self questions =
     map (\<lambda>(i, question).
            \<lparr>custom_id = ''calculation_'' @ str_int (int i),
             params =
               \<lparr>model = ''claude-3-5-sonnet-20241022'',
                max_tokens = 1024,
                tools = [calculator_tool self],
                system = system_prompt,
                messages = [\<lparr>role = ''user'', text_content = question\<rparr>]\<rparr>\<rparr>)
         (enumerate 0 questions)"

subsection \<open>The batch monitor\<close>

text \<open>
  The service is outside the program. One iteration of the loop asks it for the status
  of the batch and, when the status is \<^verbatim>\<open>ended\<close>, for the results; a \<open>poll\<close> is
  what the service answers to one iteration, and a run of the monitor consumes a
  sequence of polls. The message of a result is read only when its type is
  \<^verbatim>\<open>succeeded\<close>. The calls are taken to answer: a call that raises ends the program
  and is not a run of the loop. The pause between two iterations has no effect on the
  state.
\<close>

record 'f batch_result =
  result_id :: string
  result_type :: string
  result_message :: "'f message"

record 'f poll =
  processing_status :: string
  poll_results :: "'f batch_result list"

record monitor_state =
  results :: "string \<rightharpoonup> string"
  processed_count :: int

text \<open>\<^verbatim>\<open>for result in ...results(batch_id)\<close>\<close>

fun process_results :: "'f python \<Rightarrow> 'f batch_result list \<Rightarrow> monitor_state \<Rightarrow> monitor_state" where
  "process_results py [] st = st"
| "process_results py (r # rs) st =
     (if results st (result_id r) = None \<and> result_type r = ''succeeded'' then
        process_results py rs
          \<lparr>results = (results st)(result_id r \<mapsto> process_tool_use py (result_message r)),
           processed_count = processed_count st + 1\<rparr>
      else process_results py rs st)"

text \<open>The body of the \<^verbatim>\<open>while\<close> loop.\<close>

definition poll_iteration :: "'f python \<Rightarrow> 'f poll \<Rightarrow> monitor_state \<Rightarrow> monitor_state" where
  "poll_iteration py p st =
     (if processing_status p = ''ended'' then process_results py (poll_results p) st else st)"

text \<open>
  \<^verbatim>\<open>while processed_count < expected_count\<close>, run on the polls the service gives.
  \<open>None\<close>: the loop is still waiting when the polls are used up.
\<close>

fun monitor_loop :: "'f python \<Rightarrow> int \<Rightarrow> monitor_state \<Rightarrow> 'f poll list \<Rightarrow> monitor_state option" where
  "monitor_loop py expected_count st [] =
     (if processed_count st < expected_count then None else Some st)"
| "monitor_loop py expected_count st (p # ps) =
     (if processed_count st < expected_count
      then monitor_loop py expected_count (poll_iteration py p st) ps
      else Some st)"

definition initial_state :: monitor_state where
  "initial_state = \<lparr>results = Map.empty, processed_count = 0\<rparr>"

definition monitor_batch_progress ::
  "'f python \<Rightarrow> int \<Rightarrow> 'f poll list \<Rightarrow> (string \<rightharpoonup> string) option" where
  "monitor_batch_progress py expected_count polls =
     map_option results (monitor_loop py expected_count initial_state polls)"

text \<open>The states the loop goes through: the state at each test of the loop condition.\<close>

fun monitor_trace :: "'f python \<Rightarrow> int \<Rightarrow> monitor_state \<Rightarrow> 'f poll list \<Rightarrow> monitor_state list" where
  "monitor_trace py expected_count st [] = [st]"
| "monitor_trace py expected_count st (p # ps) =
     (if processed_count st < expected_count
      then st # monitor_trace py expected_count (poll_iteration py p st) ps
      else [st])"

subsection \<open>An interpreter to run the model on\<close>

text \<open>
  An interpreter with exact arithmetic: floats are real numbers, nothing is rounded and
  nothing overflows. It serves to evaluate the definitions on small inputs, where the
  arithmetic of a real interpreter is exact as well.
\<close>

definition exact_repr :: "real \<Rightarrow> string" where
  "exact_repr x = (if x = of_int \<lfloor>x\<rfloor> then str_int \<lfloor>x\<rfloor> @ ''.0'' else ''?'')"

definition exact_text :: "py_exception \<Rightarrow> string" where
  "exact_text e =
     (case e of
        IndexError \<Rightarrow> ''list index out of range''
      | ZeroDivisionError \<Rightarrow> ''division by zero''
      | OverflowError \<Rightarrow> ''int too large to convert to float''
      | _ \<Rightarrow> [])"

definition exact_python :: "real python" where
  "exact_python =
     \<lparr>float_of_int = (\<lambda>n. Some (of_int n)),
      int_truediv = (\<lambda>m n. Some (of_int m / of_int n)),
      fadd = (\<lambda>x y. x + y),
      fsub = (\<lambda>x y. x - y),
      fmul = (\<lambda>x y. x * y),
      fdiv = (\<lambda>x y. x / y),
      fis_zero = (\<lambda>x. x = 0),
      float_repr = exact_repr,
      exc_text = exact_text\<rparr>"

section \<open>Notions used to state the properties\<close>


text \<open>
  The identifiers that a poll reports as succeeded: the results of type
  \<^verbatim>\<open>succeeded\<close> of a poll whose status is \<^verbatim>\<open>ended\<close>.
\<close>

definition poll_succeeded :: "'f poll \<Rightarrow> string set" where
  "poll_succeeded p =
     (if processing_status p = ''ended''
      then set (map result_id (filter (\<lambda>r. result_type r = ''succeeded'') (poll_results p)))
      else {})"

definition succeeded_ids :: "'f poll list \<Rightarrow> string set" where
  "succeeded_ids polls = (\<Union>p \<in> set polls. poll_succeeded p)"

text \<open>The counter agrees with the size of the result map.\<close>

definition counted :: "monitor_state \<Rightarrow> bool" where
  "counted st \<longleftrightarrow>
     finite (dom (results st)) \<and> int (card (dom (results st))) = processed_count st"

text \<open>A poll in which every one of the given identifiers has succeeded.\<close>

definition all_succeeded :: "string list \<Rightarrow> 'f poll" where
  "all_succeeded ids =
     \<lparr>processing_status = ''ended'',
      poll_results =
        map (\<lambda>i. \<lparr>result_id = i, result_type = ''succeeded'',
                   result_message = \<lparr>content = None\<rparr>\<rparr>) ids\<rparr>"

subsection \<open>Inputs to run the model on\<close>

text \<open>A message with one tool-use block, and a batch of two requests polled three times.\<close>

definition tool_use_message :: "string \<Rightarrow> 'f pynum list \<Rightarrow> 'f message" where
  "tool_use_message opn nums =
     \<lparr>content = Some [\<lparr>block_type = ''tool_use'', block_name = ''calculate'',
                         block_input = \<lparr>operation = Some opn, numbers = Some nums\<rparr>\<rparr>]\<rparr>"

definition example_polls :: "real poll list" where
  "example_polls =
     [\<lparr>processing_status = ''in_progress'', poll_results = []\<rparr>,
      \<lparr>processing_status = ''ended'',
       poll_results =
         [\<lparr>result_id = ''calculation_0'', result_type = ''succeeded'',
           result_message = tool_use_message ''add'' [PyInt 25, PyInt 17]\<rparr>,
          \<lparr>result_id = ''calculation_1'', result_type = ''errored'',
           result_message = \<lparr>content = None\<rparr>\<rparr>]\<rparr>,
      \<lparr>processing_status = ''ended'',
       poll_results =
         [\<lparr>result_id = ''calculation_0'', result_type = ''succeeded'',
           result_message = tool_use_message ''add'' [PyInt 25, PyInt 17]\<rparr>,
          \<lparr>result_id = ''calculation_1'', result_type = ''succeeded'',
           result_message = tool_use_message ''multiply'' [PyInt 13, PyInt 7]\<rparr>]\<rparr>]"

text \<open>The input of the first tool-use block of a message, when there is one.\<close>

definition first_tool_use :: "'f message \<Rightarrow> 'f tool_input option" where
  "first_tool_use msg =
     (case content msg of
        None \<Rightarrow> None
      | Some cs \<Rightarrow> map_option block_input (find (\<lambda>c. block_type c = ''tool_use'') cs))"


text \<open>The number that a string of decimal digits denotes.\<close>

definition digits_value :: "string \<Rightarrow> nat" where
  "digits_value ds = foldl (\<lambda>a c. 10 * a + (of_char c - 48)) 0 ds"

text \<open>The identifiers that the request builder gives to \<open>k\<close> requests.\<close>

definition request_ids :: "nat \<Rightarrow> string list" where
  "request_ids k = map (\<lambda>i. ''calculation_'' @ str_int (int i)) [0..<k]"

section \<open>Properties\<close>

subsection \<open>Decimal forms used in the examples\<close>

lemma str_int_examples:
  "str_int 0 = ''0''" "str_int 1 = ''1''" "str_int 2 = ''2''"
  "str_int 42 = ''42''" "str_int 91 = ''91''"
  by (simp_all add: str_int_def dec_digits.simps)

subsection \<open>The calculator computes what each operation names\<close>














subsection \<open>Integers and floats in the result\<close>

lemma py_arith_float:
  "py_arith py iop fop a b = Inr v \<Longrightarrow> is_float v \<longleftrightarrow> is_float a \<or> is_float b"
  by (auto simp: py_arith_def is_float_def split: pynum.splits sum.splits)

lemma py_truediv_float: "py_truediv py a b = Inr v \<Longrightarrow> is_float v"
  by (auto simp: py_truediv_def is_float_def
      split: pynum.splits sum.splits if_splits option.splits)

lemma py_sum_from_float:
  "py_sum_from py acc xs = Inr v \<Longrightarrow>
     is_float v \<longleftrightarrow> is_float acc \<or> (\<exists>x \<in> set xs. is_float x)"
proof (induction xs arbitrary: acc)
  case Nil
  then show ?case by simp
next
  case (Cons x xs)
  then obtain a where a: "py_add py acc x = Inr a" and r: "py_sum_from py a xs = Inr v"
    by (auto split: sum.splits)
  from a have "is_float a \<longleftrightarrow> is_float acc \<or> is_float x"
    unfolding py_add_def by (rule py_arith_float)
  with Cons.IH [OF r] show ?case by auto
qed

lemma multiply_loop_float:
  "multiply_loop py acc xs = Inr v \<Longrightarrow>
     is_float v \<longleftrightarrow> is_float acc \<or> (\<exists>x \<in> set xs. is_float x)"
proof (induction xs arbitrary: acc)
  case Nil
  then show ?case by simp
next
  case (Cons x xs)
  then obtain a where a: "py_mul py acc x = Inr a" and r: "multiply_loop py a xs = Inr v"
    by (auto split: sum.splits)
  from a have "is_float a \<longleftrightarrow> is_float acc \<or> is_float x"
    unfolding py_mul_def by (rule py_arith_float)
  with Cons.IH [OF r] show ?case by auto
qed

lemma divide_loop_float:
  "divide_loop py acc xs = Inr v \<Longrightarrow> is_float v \<longleftrightarrow> is_float acc \<or> xs \<noteq> []"
proof (induction xs arbitrary: acc)
  case Nil
  then show ?case by simp
next
  case (Cons x xs)
  then obtain a where a: "py_truediv py acc x = Inr a" and r: "divide_loop py a xs = Inr v"
    by (auto split: sum.splits)
  from Cons.IH [OF r] py_truediv_float [OF a] show ?case by simp
qed

lemma int_is_no_float: "\<not> is_float (PyInt n)"
  by (simp add: is_float_def)

text \<open>
  Claim C3 says that the computed value is always a float. It is not: \<open>add\<close> over the
  integers 25 and 17 is the integer 42, and the dispatcher renders it \<^verbatim>\<open>Result: 42\<close>.
\<close>

theorem result_float_counterexample:
  "perform_calculation exact_python ''add'' [PyInt 25, PyInt 17] = Inr (PyInt 42) \<and>
   \<not> is_float (PyInt 42 :: real pynum) \<and>
   process_tool_use exact_python (tool_use_message ''add'' [PyInt 25, PyInt 17]) = ''Result: 42''"
  by (simp add: perform_calculation_def py_sum_def py_add_def py_arith_def is_float_def
      process_tool_use_def tool_use_message_def tool_use_reply_def calculate_input_def
      py_str_def str_int_examples)

text \<open>
  Claim C3, as amended. The computed value is a float exactly when some input number is
  a float, or the operation is \<open>divide\<close> and there are at least two numbers. So
  \<open>add\<close>, \<open>subtract\<close> and \<open>multiply\<close> over integers give an integer, and so does
  \<open>divide\<close> over a single integer.
\<close>

theorem result_float_iff:
  assumes "perform_calculation py opn xs = Inr v"
  shows "is_float v \<longleftrightarrow> (\<exists>x \<in> set xs. is_float x) \<or> (opn = ''divide'' \<and> 2 \<le> length xs)"
proof -
  consider (add) "opn = ''add''" | (sub) "opn = ''subtract''" | (mul) "opn = ''multiply''"
    | (div) "opn = ''divide''"
    | (other) "opn \<notin> {''add'', ''subtract'', ''multiply'', ''divide''}"
    by auto
  then show ?thesis
  proof cases
    case add
    with assms have "py_sum_from py (PyInt 0) xs = Inr v"
      by (simp add: perform_calculation_def py_sum_def)
    from py_sum_from_float [OF this] add show ?thesis by (simp add: int_is_no_float)
  next
    case sub
    with assms obtain x rest s where xs: "xs = x # rest"
      and s: "py_sum_from py (PyInt 0) rest = Inr s" and v: "py_sub py x s = Inr v"
      by (auto simp: perform_calculation_def py_sum_def split: list.splits sum.splits)
    from v have "is_float v \<longleftrightarrow> is_float x \<or> is_float s"
      unfolding py_sub_def by (rule py_arith_float)
    with py_sum_from_float [OF s] xs sub show ?thesis by (auto simp: int_is_no_float)
  next
    case mul
    with assms have "multiply_loop py (PyInt 1) xs = Inr v"
      by (simp add: perform_calculation_def)
    from multiply_loop_float [OF this] mul show ?thesis by (simp add: int_is_no_float)
  next
    case div
    with assms obtain x rest where xs: "xs = x # rest" and v: "divide_loop py x rest = Inr v"
      by (auto simp: perform_calculation_def split: list.splits)
    from divide_loop_float [OF v] xs div show ?thesis
      by (cases rest) auto
  next
    case other
    with assms show ?thesis by (simp add: perform_calculation_def)
  qed
qed

theorem result_float_iff_witness:
  "perform_calculation exact_python ''divide'' [PyInt 100, PyInt 4] = Inr (PyFloat 25) \<and>
   is_float (PyFloat 25 :: real pynum) \<and>
   perform_calculation exact_python ''divide'' [PyInt 5] = Inr (PyInt 5) \<and>
   \<not> is_float (PyInt 5 :: real pynum) \<and>
   perform_calculation exact_python ''multiply'' [PyInt 13, PyInt 7] = Inr (PyInt 91) \<and>
   \<not> is_float (PyInt 91 :: real pynum)"
proof -
  have d: "perform_calculation exact_python ''divide'' [PyInt 100, PyInt 4] = Inr (PyFloat 25)"
    by (simp add: perform_calculation_def py_truediv_def exact_python_def)
  have s: "perform_calculation exact_python ''divide'' [PyInt 5] = Inr (PyInt 5)"
    by (simp add: perform_calculation_def)
  have m: "perform_calculation exact_python ''multiply'' [PyInt 13, PyInt 7] = Inr (PyInt 91)"
    by (simp add: perform_calculation_def py_mul_def py_arith_def)
  from result_float_iff [OF d] result_float_iff [OF s] result_float_iff [OF m] d s m
  show ?thesis by (simp add: int_is_no_float)
qed

subsection \<open>The tool dispatcher\<close>

lemma scan_content_find:
  "scan_content py cs =
     (case find (\<lambda>c. block_type c = ''tool_use'') cs of
        None \<Rightarrow> ''No tool use found in message''
      | Some c \<Rightarrow> tool_use_reply py (block_input c))"
  by (induction cs) simp_all

lemma process_tool_use_first:
  "first_tool_use msg = Some inp \<Longrightarrow> process_tool_use py msg = tool_use_reply py inp"
  by (auto simp: first_tool_use_def process_tool_use_def scan_content_find
      split: option.splits)



lemma tool_use_reply_raised:
  "calculate_input py inp = Inl e \<Longrightarrow>
     tool_use_reply py inp = ''Error during calculation: '' @ str_exception py e"
  by (simp add: tool_use_reply_def)


lemma py_truediv_raises:
  "py_truediv py a d = Inl e \<Longrightarrow> e = ZeroDivisionError \<or> e = OverflowError"
  by (auto simp: py_truediv_def to_float_def
      split: pynum.splits if_splits option.splits sum.splits)

lemma py_truediv_zero:
  "num_is_zero py d \<Longrightarrow> \<exists>e. py_truediv py a d = Inl e"
  by (auto simp: py_truediv_def to_float_def num_is_zero_def
      split: pynum.splits if_splits option.splits sum.splits)

lemma divide_loop_zero:
  "\<exists>d \<in> set rest. num_is_zero py d \<Longrightarrow>
     \<exists>e. divide_loop py a rest = Inl e \<and> (e = ZeroDivisionError \<or> e = OverflowError)"
proof (induction rest arbitrary: a)
  case Nil
  then show ?case by simp
next
  case (Cons d rest)
  show ?case
  proof (cases "py_truediv py a d")
    case (Inl e)
    with py_truediv_raises [OF Inl] show ?thesis by simp
  next
    case (Inr r)
    with py_truediv_zero [of py d a] have "\<not> num_is_zero py d" by auto
    with Cons.prems have "\<exists>d \<in> set rest. num_is_zero py d" by simp
    from Cons.IH [OF this, of r] Inr show ?thesis by simp
  qed
qed

text \<open>
  Claim C4. When the first tool-use block asks for \<open>divide\<close> on a non-empty list whose
  remaining elements contain a zero, the calculation raises (the division by zero, or
  an overflow met before it), and the dispatcher returns
  \<^verbatim>\<open>Error during calculation: \<close> followed by the message, never a string that begins
  with \<^verbatim>\<open>Result: \<close>.
\<close>

theorem divide_by_zero_reported:
  assumes "first_tool_use msg = Some inp"
    and "operation inp = Some ''divide''"
    and "numbers inp = Some (x # rest)"
    and "\<exists>d \<in> set rest. num_is_zero py d"
  shows "(\<exists>e. (e = ZeroDivisionError \<or> e = OverflowError) \<and>
           perform_calculation py ''divide'' (x # rest) = Inl e \<and>
           process_tool_use py msg = ''Error during calculation: '' @ str_exception py e) \<and>
         (\<forall>v. process_tool_use py msg \<noteq> ''Result: '' @ v)"
proof -
  from divide_loop_zero [OF assms(4), of x]
  obtain e where e: "divide_loop py x rest = Inl e" "e = ZeroDivisionError \<or> e = OverflowError"
    by blast
  then have p: "perform_calculation py ''divide'' (x # rest) = Inl e"
    by (simp add: perform_calculation_def)
  with assms(2,3) have "calculate_input py inp = Inl e"
    by (simp add: calculate_input_def)
  then have "process_tool_use py msg = ''Error during calculation: '' @ str_exception py e"
    using process_tool_use_first [OF assms(1)] by (simp add: tool_use_reply_raised)
  with e(2) p show ?thesis by auto
qed


lemma perform_calculation_unsupported:
  "opn \<notin> {''add'', ''subtract'', ''multiply'', ''divide''} \<Longrightarrow>
     perform_calculation py opn nums = Inl (ValueError (''Unsupported operation: '' @ opn))"
  by (simp add: perform_calculation_def)

lemma str_exception_ValueError: "str_exception py (ValueError m) = m"
  by (simp add: str_exception_def)

lemma first_tool_use_message:
  "first_tool_use (tool_use_message opn nums) = Some \<lparr>operation = Some opn, numbers = Some nums\<rparr>"
  by (simp add: first_tool_use_def tool_use_message_def)

text \<open>
  Claim C7. For an operation name other than the four of the calculator, the dispatcher
  returns a string that begins with \<^verbatim>\<open>Error during calculation: \<close>; when the input
  has its numbers the string is exactly
  \<^verbatim>\<open>Error during calculation: Unsupported operation: \<close> followed by the name, so
  that \<open>modulo\<close> gives \<^verbatim>\<open>Error during calculation: Unsupported operation: modulo\<close>.
\<close>

theorem unsupported_operation_reported:
  assumes "opn \<notin> {''add'', ''subtract'', ''multiply'', ''divide''}"
    and "first_tool_use msg = Some inp"
    and "operation inp = Some opn"
  shows "(\<exists>m. process_tool_use py msg = ''Error during calculation: '' @ m) \<and>
         (\<forall>nums. numbers inp = Some nums \<longrightarrow>
            process_tool_use py msg = ''Error during calculation: Unsupported operation: '' @ opn) \<and>
         (numbers inp = None \<longrightarrow>
            process_tool_use py msg =
              ''Error during calculation: '' @ str_exception py (KeyError ''numbers'')) \<and>
         (\<forall>nums. process_tool_use py (tool_use_message ''modulo'' nums) =
            ''Error during calculation: Unsupported operation: modulo'')"
proof -
  note r = process_tool_use_first [OF assms(2), of py]
  have a: "process_tool_use py msg = ''Error during calculation: Unsupported operation: '' @ opn"
    if "numbers inp = Some nums" for nums
  proof -
    from assms(1,3) that
    have "calculate_input py inp = Inl (ValueError (''Unsupported operation: '' @ opn))"
      by (simp add: calculate_input_def perform_calculation_unsupported)
    with r show ?thesis by (simp add: tool_use_reply_raised str_exception_ValueError)
  qed
  have b: "process_tool_use py msg =
      ''Error during calculation: '' @ str_exception py (KeyError ''numbers'')"
    if "numbers inp = None"
  proof -
    from assms(3) that have "calculate_input py inp = Inl (KeyError ''numbers'')"
      by (simp add: calculate_input_def)
    with r show ?thesis by (simp add: tool_use_reply_raised)
  qed
  have c: "process_tool_use py (tool_use_message ''modulo'' nums) =
      ''Error during calculation: Unsupported operation: modulo''" for nums
  proof -
    have "calculate_input py \<lparr>operation = Some ''modulo'', numbers = Some nums\<rparr> =
        Inl (ValueError (''Unsupported operation: '' @ ''modulo''))"
      by (simp add: calculate_input_def perform_calculation_unsupported)
    with process_tool_use_first [OF first_tool_use_message, of py "''modulo''" nums]
    show ?thesis by (simp add: tool_use_reply_raised str_exception_ValueError)
  qed
  have "\<exists>m. process_tool_use py msg = ''Error during calculation: '' @ m"
    using a b by (cases "numbers inp") auto
  with a b c show ?thesis by blast
qed

theorem unsupported_operation_reported_witness:
  "''modulo'' \<notin> {''add'', ''subtract'', ''multiply'', ''divide''} \<and>
   first_tool_use (tool_use_message ''modulo'' [PyInt 7, PyInt 3 :: real pynum]) =
     Some \<lparr>operation = Some ''modulo'', numbers = Some [PyInt 7, PyInt 3]\<rparr> \<and>
   process_tool_use exact_python (tool_use_message ''modulo'' [PyInt 7, PyInt 3]) =
     ''Error during calculation: Unsupported operation: modulo''"
proof -
  have h: "''modulo'' \<notin> {''add'', ''subtract'', ''multiply'', ''divide''}" by simp
  from unsupported_operation_reported [OF h first_tool_use_message,
      where nums1 = "[PyInt 7, PyInt 3]" and py = exact_python]
  show ?thesis using h by (simp add: first_tool_use_message)
qed

text \<open>
  Claim C9. When the input of the first tool-use block lacks \<open>operation\<close> or
  \<open>numbers\<close>, the lookup raises \<^verbatim>\<open>KeyError\<close>, which the dispatcher catches: it
  returns \<^verbatim>\<open>Error during calculation: \<close> followed by the quoted name of the first
  missing key.
\<close>

theorem missing_field_reported:
  assumes "first_tool_use msg = Some inp"
    and "operation inp = None \<or> numbers inp = None"
  shows "(\<exists>e. calculate_input py inp = Inl e \<and>
            process_tool_use py msg = ''Error during calculation: '' @ str_exception py e) \<and>
         (operation inp = None \<longrightarrow>
            process_tool_use py msg =
              ''Error during calculation: '' @ [CHR 0x27] @ ''operation'' @ [CHR 0x27]) \<and>
         (operation inp \<noteq> None \<longrightarrow>
            process_tool_use py msg =
              ''Error during calculation: '' @ [CHR 0x27] @ ''numbers'' @ [CHR 0x27])"
proof -
  note r = process_tool_use_first [OF assms(1), of py]
  show ?thesis
  proof (cases "operation inp")
    case None
    then have "calculate_input py inp = Inl (KeyError ''operation'')"
      by (simp add: calculate_input_def)
    with r None show ?thesis by (simp add: tool_use_reply_raised str_exception_def)
  next
    case (Some opn)
    with assms(2) have "calculate_input py inp = Inl (KeyError ''numbers'')"
      by (simp add: calculate_input_def)
    with r Some show ?thesis by (simp add: tool_use_reply_raised str_exception_def)
  qed
qed

theorem missing_field_reported_witness:
  "first_tool_use \<lparr>content = Some [\<lparr>block_type = ''tool_use'', block_name = ''calculate'',
       block_input = \<lparr>operation = Some ''add'', numbers = None\<rparr>\<rparr>]\<rparr> =
     Some (\<lparr>operation = Some ''add'', numbers = None\<rparr> :: real tool_input) \<and>
   process_tool_use exact_python \<lparr>content = Some [\<lparr>block_type = ''tool_use'',
       block_name = ''calculate'', block_input = \<lparr>operation = Some ''add'', numbers = None\<rparr>\<rparr>]\<rparr> =
     ''Error during calculation: '' @ [CHR 0x27] @ ''numbers'' @ [CHR 0x27]"
proof -
  let ?inp = "\<lparr>operation = Some ''add'', numbers = None\<rparr> :: real tool_input"
  let ?msg = "\<lparr>content = Some [\<lparr>block_type = ''tool_use'', block_name = ''calculate'',
       block_input = ?inp\<rparr>]\<rparr>"
  have h: "first_tool_use ?msg = Some ?inp" by (simp add: first_tool_use_def)
  have "operation ?inp = None \<or> numbers ?inp = None" by simp
  from missing_field_reported [OF h this, of exact_python] h show ?thesis by simp
qed



theorem divide_by_zero_reported_witness:
  "first_tool_use (tool_use_message ''divide'' [PyInt 8, PyInt 2, PyInt 0 :: real pynum]) =
     Some \<lparr>operation = Some ''divide'', numbers = Some [PyInt 8, PyInt 2, PyInt 0]\<rparr> \<and>
   num_is_zero exact_python (PyInt 0) \<and>
   process_tool_use exact_python (tool_use_message ''divide'' [PyInt 8, PyInt 2, PyInt 0]) =
     ''Error during calculation: division by zero''"
proof -
  let ?inp = "\<lparr>operation = Some ''divide'',
      numbers = Some [PyInt 8, PyInt 2, PyInt 0 :: real pynum]\<rparr>"
  have z: "\<exists>d \<in> set [PyInt 2, PyInt 0 :: real pynum]. num_is_zero exact_python d"
    by (simp add: num_is_zero_def)
  have o: "perform_calculation exact_python ''divide'' [PyInt 8, PyInt 2, PyInt 0] \<noteq>
      Inl OverflowError"
    by (simp add: perform_calculation_def py_truediv_def exact_python_def)
  have h: "first_tool_use (tool_use_message ''divide'' [PyInt 8, PyInt 2, PyInt 0]) = Some ?inp"
    "operation ?inp = Some ''divide''" "numbers ?inp = Some (PyInt 8 # [PyInt 2, PyInt 0])"
    by (simp_all add: first_tool_use_message)
  from divide_by_zero_reported [OF h z] o
  have "process_tool_use exact_python (tool_use_message ''divide'' [PyInt 8, PyInt 2, PyInt 0]) =
      ''Error during calculation: '' @ str_exception exact_python ZeroDivisionError"
    by auto
  then show ?thesis
    by (simp add: first_tool_use_message num_is_zero_def str_exception_def exact_python_def
        exact_text_def)
qed

text \<open>
  Claim C10. On the empty list \<open>subtract\<close> and \<open>divide\<close> read the first element and
  raise \<^verbatim>\<open>IndexError\<close>, which the dispatcher turns into
  \<^verbatim>\<open>Error during calculation: \<close> followed by the interpreter's message; \<open>add\<close> on
  the empty list is the integer 0.
\<close>

theorem empty_numbers:
  "perform_calculation py ''subtract'' [] = Inl IndexError \<and>
   perform_calculation py ''divide'' [] = Inl IndexError \<and>
   perform_calculation py ''add'' [] = Inr (PyInt 0) \<and>
   process_tool_use py (tool_use_message ''subtract'' []) =
     ''Error during calculation: '' @ exc_text py IndexError \<and>
   process_tool_use py (tool_use_message ''divide'' []) =
     ''Error during calculation: '' @ exc_text py IndexError \<and>
   process_tool_use py (tool_use_message ''add'' []) = ''Result: 0'' \<and>
   (first_tool_use msg = Some inp \<and> numbers inp = Some [] \<and>
    (operation inp = Some ''subtract'' \<or> operation inp = Some ''divide'') \<longrightarrow>
      process_tool_use py msg = ''Error during calculation: '' @ exc_text py IndexError)"
proof -
  have p: "perform_calculation py ''subtract'' [] = Inl IndexError"
    "perform_calculation py ''divide'' [] = Inl IndexError"
    "perform_calculation py ''add'' [] = Inr (PyInt 0)"
    by (simp_all add: perform_calculation_def py_sum_def)
  have g: "process_tool_use py msg = ''Error during calculation: '' @ exc_text py IndexError"
    if "first_tool_use msg = Some inp" "numbers inp = Some []"
      "operation inp = Some ''subtract'' \<or> operation inp = Some ''divide''" for msg inp
  proof -
    from that(2,3) p have "calculate_input py inp = Inl IndexError"
      by (auto simp: calculate_input_def)
    with process_tool_use_first [OF that(1), of py] show ?thesis
      by (simp add: tool_use_reply_raised str_exception_def)
  qed
  have "process_tool_use py (tool_use_message ''add'' []) = ''Result: 0''"
    using process_tool_use_first [OF first_tool_use_message, of py "''add''" "[]"] p(3)
    by (simp add: tool_use_reply_def calculate_input_def py_str_def str_int_examples)
  with p g [OF first_tool_use_message, of "''subtract''" "[]"]
    g [OF first_tool_use_message, of "''divide''" "[]"] g [of msg inp]
  show ?thesis by simp
qed

theorem empty_numbers_witness:
  "process_tool_use exact_python (tool_use_message ''divide'' []) =
     ''Error during calculation: list index out of range'' \<and>
   process_tool_use exact_python (tool_use_message ''subtract'' []) =
     ''Error during calculation: list index out of range'' \<and>
   process_tool_use exact_python (tool_use_message ''add'' []) = ''Result: 0''"
  using empty_numbers [of exact_python "tool_use_message ''divide'' []"
      "\<lparr>operation = Some ''divide'', numbers = Some []\<rparr>"]
  by (simp add: exact_python_def exact_text_def)

subsection \<open>The request builder\<close>

lemma digit_char_value: "d < 10 \<Longrightarrow> of_char (''0123456789'' ! d) - 48 = (d::nat)"
proof -
  assume "d < 10"
  then have "d = 0 \<or> d = 1 \<or> d = 2 \<or> d = 3 \<or> d = 4 \<or> d = 5 \<or> d = 6 \<or> d = 7 \<or> d = 8 \<or> d = 9"
    by arith
  then show ?thesis by (elim disjE) simp_all
qed

lemma digits_value_snoc:
  "digits_value (ds @ [c]) = 10 * digits_value ds + (of_char c - 48)"
  by (simp add: digits_value_def)

lemma digits_value_dec_digits: "digits_value (dec_digits n) = n"
proof (induction n rule: dec_digits.induct)
  case (1 n)
  show ?case
  proof (cases "n < 10")
    case True
    then have "dec_digits n = [''0123456789'' ! n]" by (subst dec_digits.simps) simp
    with True show ?thesis by (simp add: digits_value_def digit_char_value)
  next
    case False
    then have "dec_digits n = dec_digits (n div 10) @ [''0123456789'' ! (n mod 10)]"
      by (subst dec_digits.simps) simp
    with 1 False show ?thesis by (simp add: digits_value_snoc digit_char_value)
  qed
qed

lemma dec_digits_inj:
  assumes "dec_digits m = dec_digits n"
  shows "m = n"
proof -
  have "m = digits_value (dec_digits m)" by (simp only: digits_value_dec_digits)
  also have "\<dots> = digits_value (dec_digits n)" by (simp only: assms)
  also have "\<dots> = n" by (rule digits_value_dec_digits)
  finally show ?thesis .
qed

lemma str_int_nat: "str_int (int i) = dec_digits i"
  by (simp add: str_int_def)

lemma custom_id_inj:
  "inj (\<lambda>i. ''calculation_'' @ str_int (int i))"
  by (rule injI) (simp add: str_int_nat dec_digits_inj)

lemma create_batch_requests_map:
  "create_batch_requests self questions =
     map (\<lambda>i. \<lparr>custom_id = ''calculation_'' @ str_int (int i),
               params =
                 \<lparr>model = ''claude-3-5-sonnet-20241022'',
                  max_tokens = 1024,
                  tools = [calculator_tool self],
                  system = system_prompt,
                  messages = [\<lparr>role = ''user'', text_content = questions ! i\<rparr>]\<rparr>\<rparr>)
         [0..<length questions]"
  by (rule nth_equalityI) (simp_all add: create_batch_requests_def nth_enumerate_eq)

text \<open>
  Claim C6. For \<open>n\<close> questions the builder returns \<open>n\<close> requests in the order of the
  questions; the identifier of the request at position \<open>i\<close> is \<^verbatim>\<open>calculation_\<close>
  followed by the decimal form of \<open>i\<close>, the identifiers are pairwise distinct, and every
  request carries the question unchanged, the same system instruction and the agent's
  calculator tool. The builder is a total function of the questions.
\<close>

theorem create_batch_requests_shape:
  "length (create_batch_requests self questions) = length questions \<and>
   map custom_id (create_batch_requests self questions) =
     map (\<lambda>i. ''calculation_'' @ str_int (int i)) [0..<length questions] \<and>
   distinct (map custom_id (create_batch_requests self questions)) \<and>
   (\<forall>i < length questions.
      custom_id (create_batch_requests self questions ! i) = ''calculation_'' @ str_int (int i) \<and>
      messages (params (create_batch_requests self questions ! i)) =
        [\<lparr>role = ''user'', text_content = questions ! i\<rparr>] \<and>
      system (params (create_batch_requests self questions ! i)) = system_prompt \<and>
      tools (params (create_batch_requests self questions ! i)) = [calculator_tool self] \<and>
      model (params (create_batch_requests self questions ! i)) = ''claude-3-5-sonnet-20241022'' \<and>
      max_tokens (params (create_batch_requests self questions ! i)) = 1024) \<and>
   calculator_tool init_agent = define_calculator_tool"
proof -
  let ?rs = "create_batch_requests self questions"
  have ids: "map custom_id ?rs =
      map (\<lambda>i. ''calculation_'' @ str_int (int i)) [0..<length questions]"
    by (simp add: create_batch_requests_map comp_def)
  have "distinct (map (\<lambda>i. ''calculation_'' @ str_int (int i)) [0..<length questions])"
    using custom_id_inj by (auto simp: distinct_map inj_on_def)
  with ids have "distinct (map custom_id ?rs)" by simp
  moreover have "length ?rs = length questions"
    by (simp add: create_batch_requests_map)
  moreover have "\<forall>i < length questions.
      custom_id (?rs ! i) = ''calculation_'' @ str_int (int i) \<and>
      messages (params (?rs ! i)) = [\<lparr>role = ''user'', text_content = questions ! i\<rparr>] \<and>
      system (params (?rs ! i)) = system_prompt \<and>
      tools (params (?rs ! i)) = [calculator_tool self] \<and>
      model (params (?rs ! i)) = ''claude-3-5-sonnet-20241022'' \<and>
      max_tokens (params (?rs ! i)) = 1024"
    by (simp add: create_batch_requests_map)
  ultimately show ?thesis using ids by (simp add: init_agent_def)
qed

theorem create_batch_requests_shape_witness:
  "map custom_id (create_batch_requests init_agent [''What is 25 + 17?'', [], ''What is 13 * 7?'']) =
     [''calculation_0'', ''calculation_1'', ''calculation_2''] \<and>
   map (\<lambda>r. map text_content (messages (params r)))
     (create_batch_requests init_agent [''What is 25 + 17?'', [], ''What is 13 * 7?'']) =
     [[''What is 25 + 17?''], [[]], [''What is 13 * 7?'']]"
proof -
  have u: "[0..<3] = [0, 1, 2]" by (simp add: upt_rec)
  have d: "str_int 0 = ''0''" "str_int 1 = ''1''" "str_int 2 = ''2''"
    by (simp_all add: str_int_def dec_digits.simps)
  from create_batch_requests_shape [of init_agent "[''What is 25 + 17?'', [], ''What is 13 * 7?'']"]
  show ?thesis
    by (simp add: u d create_batch_requests_def enumerate_eq_zip)
qed

subsection \<open>The batch monitor\<close>

lemma counted_initial: "counted initial_state"
  by (simp add: counted_def initial_state_def)

lemma process_results_counted: "counted st \<Longrightarrow> counted (process_results py rs st)"
proof (induction rs arbitrary: st)
  case Nil
  then show ?case by simp
next
  case (Cons r rs)
  show ?case
  proof (cases "results st (result_id r) = None \<and> result_type r = ''succeeded''")
    case True
    let ?st = "\<lparr>results = (results st)(result_id r \<mapsto> process_tool_use py (result_message r)),
                processed_count = processed_count st + 1\<rparr>"
    from True have "result_id r \<notin> dom (results st)" by (simp add: domIff)
    with Cons.prems have "counted ?st" by (simp add: counted_def)
    then have "counted (process_results py rs ?st)" by (rule Cons.IH)
    with True show ?thesis by simp
  next
    case False
    with Cons show ?thesis by auto
  qed
qed

lemma process_results_count_mono:
  "processed_count st \<le> processed_count (process_results py rs st)"
proof (induction rs arbitrary: st)
  case Nil
  show ?case by simp
next
  case (Cons r rs)
  let ?st = "\<lparr>results = (results st)(result_id r \<mapsto> process_tool_use py (result_message r)),
              processed_count = processed_count st + 1\<rparr>"
  have "processed_count st \<le> processed_count ?st" by simp
  also have "\<dots> \<le> processed_count (process_results py rs ?st)" by (rule Cons.IH)
  finally show ?case using Cons.IH [of st] by simp
qed

lemma process_results_dom:
  "dom (results (process_results py rs st)) =
     dom (results st) \<union> set (map result_id (filter (\<lambda>r. result_type r = ''succeeded'') rs))"
proof (induction rs arbitrary: st)
  case Nil
  show ?case by simp
next
  case (Cons r rs)
  let ?S = "\<lambda>rs. set (map result_id (filter (\<lambda>r. result_type r = ''succeeded'') rs))"
  show ?case
  proof (cases "results st (result_id r) = None \<and> result_type r = ''succeeded''")
    case True
    let ?st = "\<lparr>results = (results st)(result_id r \<mapsto> process_tool_use py (result_message r)),
                processed_count = processed_count st + 1\<rparr>"
    have "dom (results (process_results py rs ?st)) = dom (results ?st) \<union> ?S rs"
      by (rule Cons.IH)
    moreover have "dom (results ?st) = insert (result_id r) (dom (results st))" by simp
    moreover have "process_results py (r # rs) st = process_results py rs ?st"
      using True by simp
    ultimately show ?thesis using True by auto
  next
    case False
    have "dom (results (process_results py rs st)) = dom (results st) \<union> ?S rs"
      by (rule Cons.IH)
    moreover have "process_results py (r # rs) st = process_results py rs st"
      using False by auto
    moreover have "result_type r = ''succeeded'' \<Longrightarrow> result_id r \<in> dom (results st)"
      using False by (auto simp: domIff)
    ultimately show ?thesis by auto
  qed
qed

lemma poll_iteration_counted: "counted st \<Longrightarrow> counted (poll_iteration py p st)"
  by (simp add: poll_iteration_def process_results_counted)

lemma poll_iteration_count_mono:
  "processed_count st \<le> processed_count (poll_iteration py p st)"
  by (simp add: poll_iteration_def process_results_count_mono)

lemma poll_iteration_dom:
  "dom (results (poll_iteration py p st)) = dom (results st) \<union> poll_succeeded p"
  by (simp add: poll_iteration_def poll_succeeded_def process_results_dom)

lemma monitor_trace_nonempty: "monitor_trace py n st polls \<noteq> []"
  by (cases polls) simp_all

lemma monitor_trace_hd: "hd (monitor_trace py n st polls) = st"
  by (cases polls) simp_all

lemma monitor_trace_sorted:
  "sorted (map processed_count (monitor_trace py n st polls))"
proof (induction polls arbitrary: st)
  case Nil
  show ?case by simp
next
  case (Cons p ps)
  show ?case
  proof (cases "processed_count st < n")
    case True
    let ?t = "monitor_trace py n (poll_iteration py p st) ps"
    have s: "sorted (map processed_count ?t)" by (rule Cons.IH)
    have "\<forall>x \<in> set (map processed_count ?t). processed_count (poll_iteration py p st) \<le> x"
    proof (cases ?t)
      case Nil
      then show ?thesis by simp
    next
      case (Cons t ts)
      with monitor_trace_hd [of py n "poll_iteration py p st" ps]
      have "t = poll_iteration py p st" by simp
      with s Cons show ?thesis by auto
    qed
    with poll_iteration_count_mono [of st py p] s True show ?thesis by fastforce
  next
    case False
    then show ?thesis by simp
  qed
qed

lemma monitor_loop_last:
  "monitor_loop py n st polls =
     (let s = last (monitor_trace py n st polls)
      in if processed_count s < n then None else Some s)"
proof (induction polls arbitrary: st)
  case Nil
  show ?case by simp
next
  case (Cons p ps)
  show ?case by (simp add: Cons.IH monitor_trace_nonempty)
qed

lemma monitor_trace_butlast:
  "s \<in> set (butlast (monitor_trace py n st polls)) \<Longrightarrow> processed_count s < n"
proof (induction polls arbitrary: st)
  case Nil
  then show ?case by simp
next
  case (Cons p ps)
  then show ?case by (auto simp: monitor_trace_nonempty split: if_splits)
qed

lemma monitor_trace_state:
  "counted st \<Longrightarrow> s \<in> set (monitor_trace py n st polls) \<Longrightarrow>
     counted s \<and> dom (results s) \<subseteq> dom (results st) \<union> succeeded_ids polls"
proof (induction polls arbitrary: st)
  case Nil
  then show ?case by simp
next
  case (Cons p ps)
  show ?case
  proof (cases "s = st")
    case True
    with Cons.prems show ?thesis by auto
  next
    case False
    with Cons.prems have lt: "processed_count st < n"
      and "s \<in> set (monitor_trace py n (poll_iteration py p st) ps)"
      by (auto split: if_splits)
    with Cons.IH [of "poll_iteration py p st"] Cons.prems(1)
    show ?thesis by (auto simp: poll_iteration_counted poll_iteration_dom succeeded_ids_def)
  qed
qed

lemma counted_bound:
  assumes "counted s" "finite R" "dom (results s) \<subseteq> R"
  shows "processed_count s \<le> int (card R)"
    and "processed_count s = int (card R) \<Longrightarrow> dom (results s) = R"
proof -
  from assms have "card (dom (results s)) \<le> card R" by (simp add: card_mono)
  with assms(1) show "processed_count s \<le> int (card R)" by (simp add: counted_def)
  assume "processed_count s = int (card R)"
  with assms(1) have "card (dom (results s)) = card R" by (simp add: counted_def)
  with assms(2,3) show "dom (results s) = R" by (simp add: card_subset_eq)
qed


lemma initial_dom: "dom (results initial_state) = {}"
  by (simp add: initial_state_def)

lemma monitor_trace_bounded:
  assumes "finite R" "int (card R) = n" "succeeded_ids polls \<subseteq> R"
    and "s \<in> set (monitor_trace py n initial_state polls)"
  shows "counted s" and "dom (results s) \<subseteq> succeeded_ids polls"
    and "processed_count s \<le> n"
    and "processed_count s = n \<Longrightarrow> dom (results s) = R"
proof -
  from monitor_trace_state [OF counted_initial assms(4)]
  show c: "counted s" and d: "dom (results s) \<subseteq> succeeded_ids polls"
    by (simp_all add: initial_dom)
  from d assms(3) have "dom (results s) \<subseteq> R" by blast
  from counted_bound [OF c assms(1) this] assms(2)
  show "processed_count s \<le> n" and "processed_count s = n \<Longrightarrow> dom (results s) = R"
    by simp_all
qed

lemma monitor_loop_waiting:
  "\<forall>p \<in> set ws. processing_status p \<noteq> ''ended'' \<Longrightarrow> processed_count st < n \<Longrightarrow>
     monitor_loop py n st (ws @ ps) = monitor_loop py n st ps \<and>
     monitor_loop py n st ws = None"
proof (induction ws)
  case Nil
  then show ?case by simp
next
  case (Cons w ws)
  then have "poll_iteration py w st = st" by (simp add: poll_iteration_def)
  with Cons show ?case
    by (cases ps) simp_all
qed

lemma all_succeeded_ids: "poll_succeeded (all_succeeded ids :: 'f poll) = set ids"
  by (simp add: poll_succeeded_def all_succeeded_def comp_def)

lemma monitor_loop_completes:
  fixes py :: "'f python" and R :: "string set"
  assumes "finite R" and "int (card R) = n"
  shows "\<exists>p :: 'f poll. monitor_loop py n initial_state [p] \<noteq> None"
proof -
  from assms(1) obtain ids where ids: "set ids = R"
    using finite_list by blast
  let ?p = "all_succeeded ids :: 'f poll"
  let ?s = "poll_iteration py ?p initial_state"
  have "counted ?s" by (simp add: poll_iteration_counted counted_initial)
  moreover have "dom (results ?s) = R"
    by (simp add: poll_iteration_dom initial_dom all_succeeded_ids ids)
  ultimately have "processed_count ?s = n" using assms(2) by (simp add: counted_def)
  then have "monitor_loop py n initial_state [?p] \<noteq> None" by simp
  then show ?thesis by blast
qed

lemma example_polls_succeeded:
  "succeeded_ids example_polls = {''calculation_0'', ''calculation_1''}"
  by (simp add: succeeded_ids_def poll_succeeded_def example_polls_def insert_commute
      del: set_filter)

lemma example_polls_prefix_succeeded:
  "succeeded_ids (take 2 example_polls) = {''calculation_0''}"
  by (simp add: succeeded_ids_def poll_succeeded_def example_polls_def insert_commute
      del: set_filter)

lemma example_run:
  "monitor_batch_progress exact_python 2 example_polls =
     Some [''calculation_0'' \<mapsto> ''Result: 42'', ''calculation_1'' \<mapsto> ''Result: 91'']"
  by (simp add: monitor_batch_progress_def example_polls_def initial_state_def
      poll_iteration_def process_tool_use_def tool_use_message_def tool_use_reply_def
      calculate_input_def perform_calculation_def py_sum_def py_add_def py_mul_def
      py_arith_def py_str_def str_int_examples)

lemma monitor_trace_initial:
  assumes "s \<in> set (monitor_trace py n initial_state polls)"
  shows "counted s" and "dom (results s) \<subseteq> succeeded_ids polls"
  using monitor_trace_state [OF counted_initial assms] by (simp_all add: initial_dom)

text \<open>
  Claim C2. Across the iterations of the monitor the counter never decreases. The loop
  goes on while the counter is below the expected count and returns in the first state
  where it is not. The keys of the result map are always identifiers that a poll has
  reported as succeeded, the counter is the size of the map, and a result that is not
  \<^verbatim>\<open>succeeded\<close> leaves the state as it is. For a batch with the requests \<open>R\<close>,
  with \<open>expected_count\<close> their number and a service that reports as succeeded only
  requests of the batch, the counter never exceeds the expected count, the loop returns
  exactly in the state where the two are equal, and a returned map has as many entries
  as expected only when every request has been reported as succeeded.
\<close>

theorem monitor_progress:
  "sorted (map processed_count (monitor_trace py n initial_state polls)) \<and>
   (\<forall>s \<in> set (butlast (monitor_trace py n initial_state polls)). processed_count s < n) \<and>
   (\<forall>st. monitor_loop py n initial_state polls = Some st \<longleftrightarrow>
      st = last (monitor_trace py n initial_state polls) \<and> n \<le> processed_count st) \<and>
   (\<forall>s \<in> set (monitor_trace py n initial_state polls).
      dom (results s) \<subseteq> succeeded_ids polls \<and>
      int (card (dom (results s))) = processed_count s) \<and>
   (\<forall>r rs st. result_type r \<noteq> ''succeeded'' \<longrightarrow>
      process_results py (r # rs) st = process_results py rs st) \<and>
   (finite R \<and> int (card R) = n \<and> succeeded_ids polls \<subseteq> R \<longrightarrow>
      (\<forall>s \<in> set (monitor_trace py n initial_state polls). processed_count s \<le> n) \<and>
      (\<forall>st. monitor_loop py n initial_state polls = Some st \<longleftrightarrow>
         st = last (monitor_trace py n initial_state polls) \<and> processed_count st = n) \<and>
      (\<forall>rm. monitor_batch_progress py n polls = Some rm \<longrightarrow>
         (int (card (dom rm)) = n \<longrightarrow> R \<subseteq> succeeded_ids polls)))"
proof -
  let ?t = "monitor_trace py n initial_state polls"
  have last_in: "last ?t \<in> set ?t" by (simp add: monitor_trace_nonempty)
  have 1: "sorted (map processed_count ?t)" by (rule monitor_trace_sorted)
  have 2: "\<forall>s \<in> set (butlast ?t). processed_count s < n"
    by (blast dest: monitor_trace_butlast)
  have 3: "\<forall>st. monitor_loop py n initial_state polls = Some st \<longleftrightarrow>
      st = last ?t \<and> n \<le> processed_count st"
    by (auto simp: monitor_loop_last Let_def)
  have 4: "\<forall>s \<in> set ?t. dom (results s) \<subseteq> succeeded_ids polls \<and>
      int (card (dom (results s))) = processed_count s"
  proof
    fix s
    assume "s \<in> set ?t"
    from monitor_trace_initial [OF this]
    show "dom (results s) \<subseteq> succeeded_ids polls \<and>
      int (card (dom (results s))) = processed_count s"
      by (simp add: counted_def)
  qed
  have 5: "\<forall>r rs st. result_type r \<noteq> ''succeeded'' \<longrightarrow>
      process_results py (r # rs) st = process_results py rs st"
    by simp
  have 6: "(\<forall>s \<in> set ?t. processed_count s \<le> n) \<and>
      (\<forall>st. monitor_loop py n initial_state polls = Some st \<longleftrightarrow>
         st = last ?t \<and> processed_count st = n) \<and>
      (\<forall>rm. monitor_batch_progress py n polls = Some rm \<longrightarrow>
         (int (card (dom rm)) = n \<longrightarrow> R \<subseteq> succeeded_ids polls))"
    if h: "finite R \<and> int (card R) = n \<and> succeeded_ids polls \<subseteq> R"
  proof -
    from h have h': "finite R" "int (card R) = n" "succeeded_ids polls \<subseteq> R" by simp_all
    note b = monitor_trace_bounded [OF h']
    have a: "\<forall>s \<in> set ?t. processed_count s \<le> n" using b(3) by blast
    have c: "\<forall>st. monitor_loop py n initial_state polls = Some st \<longleftrightarrow>
        st = last ?t \<and> processed_count st = n"
      using b(3) [OF last_in] by (auto simp: monitor_loop_last Let_def)
    have d: "\<forall>rm. monitor_batch_progress py n polls = Some rm \<longrightarrow>
        (int (card (dom rm)) = n \<longrightarrow> R \<subseteq> succeeded_ids polls)"
    proof (intro allI impI)
      fix rm
      assume "monitor_batch_progress py n polls = Some rm"
      then obtain st where st: "monitor_loop py n initial_state polls = Some st"
        and rm: "rm = results st"
        by (auto simp: monitor_batch_progress_def)
      from st c have "st \<in> set ?t" and "processed_count st = n" using last_in by auto
      with b(2) [of st] b(4) [of st] rm show "R \<subseteq> succeeded_ids polls" by auto
    qed
    show ?thesis by (rule conjI [OF a conjI [OF c d]])
  qed
  have 7: "finite R \<and> int (card R) = n \<and> succeeded_ids polls \<subseteq> R \<longrightarrow>
      (\<forall>s \<in> set ?t. processed_count s \<le> n) \<and>
      (\<forall>st. monitor_loop py n initial_state polls = Some st \<longleftrightarrow>
         st = last ?t \<and> processed_count st = n) \<and>
      (\<forall>rm. monitor_batch_progress py n polls = Some rm \<longrightarrow>
         (int (card (dom rm)) = n \<longrightarrow> R \<subseteq> succeeded_ids polls))"
    by (rule impI) (rule 6)
  show ?thesis
    by (rule conjI [OF 1 conjI [OF 2 conjI [OF 3 conjI [OF 4 conjI [OF 5 7]]]]])
qed

theorem monitor_progress_witness:
  "finite {''calculation_0'', ''calculation_1''} \<and>
   int (card {''calculation_0'', ''calculation_1''}) = 2 \<and>
   succeeded_ids example_polls \<subseteq> {''calculation_0'', ''calculation_1''} \<and>
   sorted (map processed_count (monitor_trace exact_python 2 initial_state example_polls)) \<and>
   monitor_batch_progress exact_python 2 example_polls =
     Some [''calculation_0'' \<mapsto> ''Result: 42'', ''calculation_1'' \<mapsto> ''Result: 91''] \<and>
   {''calculation_0'', ''calculation_1''} \<subseteq> succeeded_ids example_polls"
proof -
  let ?R = "{''calculation_0'', ''calculation_1''}"
  have h: "finite ?R \<and> int (card ?R) = 2 \<and> succeeded_ids example_polls \<subseteq> ?R"
    by (simp add: example_polls_succeeded)
  note t = monitor_progress [of exact_python 2 example_polls ?R]
  have c: "int (card (dom [''calculation_0'' \<mapsto> ''Result: 42'',
      ''calculation_1'' \<mapsto> ''Result: 91''])) = 2"
    by simp
  from t have s: "sorted (map processed_count
      (monitor_trace exact_python 2 initial_state example_polls))"
    by (rule conjunct1)
  from t [THEN conjunct2, THEN conjunct2, THEN conjunct2, THEN conjunct2, THEN conjunct2,
      THEN mp, OF h, THEN conjunct2, THEN conjunct2, THEN spec, THEN mp, OF example_run,
      THEN mp, OF c]
  have "?R \<subseteq> succeeded_ids example_polls" .
  with h s example_run show ?thesis by (intro conjI) simp_all
qed

lemma request_ids_card: "card (set (request_ids k)) = k"
proof -
  have "distinct (request_ids k)"
    unfolding request_ids_def using custom_id_inj by (auto simp: distinct_map inj_on_def)
  then have "card (set (request_ids k)) = length (request_ids k)"
    by (rule distinct_card)
  then show ?thesis by (simp add: request_ids_def)
qed

lemma monitor_loop_completes2:
  fixes py :: "'f python"
  assumes "0 \<le> n"
  shows "\<exists>p :: 'f poll. monitor_loop py n initial_state [p] \<noteq> None"
proof -
  let ?R = "set (request_ids (nat n))"
  have "finite ?R" by simp
  moreover have "int (card ?R) = n" using assms by (simp add: request_ids_card)
  ultimately show ?thesis by (rule monitor_loop_completes)
qed

text \<open>
  Claim C8. For a batch with the requests \<open>R\<close>, \<open>expected_count\<close> their number, and a
  service that reports as succeeded only requests of the batch: when some request is not
  reported as succeeded, the monitor has not returned, however many polls it has made;
  and every run that returns does so with the counter equal to the expected count. When
  the status never becomes \<^verbatim>\<open>ended\<close> and a result is expected, the monitor has not
  returned either. For every number \<open>k\<close> there is a run that is still waiting after
  \<open>k\<close> polls and returns on the next one, so that no bound on the number of polls
  exists.
\<close>

theorem monitor_waits_forever:
  fixes py :: "'f python"
  shows "(finite R \<and> int (card R) = n \<and> succeeded_ids polls \<subseteq> R \<longrightarrow>
      ((\<exists>r \<in> R. r \<notin> succeeded_ids polls) \<longrightarrow> monitor_batch_progress py n polls = None) \<and>
      (\<forall>st. monitor_loop py n initial_state polls = Some st \<longrightarrow> processed_count st = n)) \<and>
    (0 < n \<and> (\<forall>p \<in> set polls. processing_status p \<noteq> ''ended'') \<longrightarrow>
       monitor_batch_progress py n polls = None) \<and>
    (0 < n \<longrightarrow>
       (\<forall>k. \<exists>ws :: 'f poll list. length ws = k \<and> monitor_batch_progress py n ws = None \<and>
          (\<exists>p. monitor_batch_progress py n (ws @ [p]) \<noteq> None)))"
proof -
  let ?t = "monitor_trace py n initial_state polls"
  have last_in: "last ?t \<in> set ?t" by (simp add: monitor_trace_nonempty)
  have 1: "((\<exists>r \<in> R. r \<notin> succeeded_ids polls) \<longrightarrow> monitor_batch_progress py n polls = None) \<and>
      (\<forall>st. monitor_loop py n initial_state polls = Some st \<longrightarrow> processed_count st = n)"
    if h: "finite R \<and> int (card R) = n \<and> succeeded_ids polls \<subseteq> R"
  proof -
    from h have h': "finite R" "int (card R) = n" "succeeded_ids polls \<subseteq> R" by simp_all
    note b = monitor_trace_bounded [OF h']
    have "monitor_batch_progress py n polls = None" if "\<exists>r \<in> R. r \<notin> succeeded_ids polls"
    proof -
      have "processed_count (last ?t) \<noteq> n"
        using b(2) [OF last_in] b(4) [OF last_in] that by auto
      with b(3) [OF last_in] have "processed_count (last ?t) < n" by simp
      then show ?thesis by (simp add: monitor_batch_progress_def monitor_loop_last)
    qed
    moreover
    have "\<forall>st. monitor_loop py n initial_state polls = Some st \<longrightarrow> processed_count st = n"
      using b(3) [OF last_in] by (auto simp: monitor_loop_last Let_def split: if_splits)
    ultimately show ?thesis by blast
  qed
  have init: "processed_count initial_state < n" if "0 < n"
    using that by (simp add: initial_state_def)
  have 2: "monitor_batch_progress py n polls = None"
    if "0 < n \<and> (\<forall>p \<in> set polls. processing_status p \<noteq> ''ended'')"
    using that monitor_loop_waiting [where ws = polls and n = n and st = initial_state and py = py]
      init
    by (simp add: monitor_batch_progress_def)
  have 3: "\<exists>ws :: 'f poll list. length ws = k \<and> monitor_batch_progress py n ws = None \<and>
          (\<exists>p. monitor_batch_progress py n (ws @ [p]) \<noteq> None)" if "0 < n" for k
  proof -
    let ?ws = "replicate k \<lparr>processing_status = ''in_progress'', poll_results = []\<rparr> :: 'f poll list"
    have w: "\<forall>p \<in> set ?ws. processing_status p \<noteq> ''ended''" by simp
    from that have "0 \<le> n" by simp
    from monitor_loop_completes2 [OF this, of py]
    obtain p :: "'f poll" where p: "monitor_loop py n initial_state [p] \<noteq> None" by blast
    from monitor_loop_waiting [OF w init [OF that], of py "[p]"] p
    have "monitor_batch_progress py n ?ws = None"
      and "monitor_batch_progress py n (?ws @ [p]) \<noteq> None"
      by (simp_all add: monitor_batch_progress_def)
    then show ?thesis by (intro exI [of _ ?ws]) auto
  qed
  have 4: "finite R \<and> int (card R) = n \<and> succeeded_ids polls \<subseteq> R \<longrightarrow>
      ((\<exists>r \<in> R. r \<notin> succeeded_ids polls) \<longrightarrow> monitor_batch_progress py n polls = None) \<and>
      (\<forall>st. monitor_loop py n initial_state polls = Some st \<longrightarrow> processed_count st = n)"
    by (rule impI) (rule 1)
  have 5: "0 < n \<and> (\<forall>p \<in> set polls. processing_status p \<noteq> ''ended'') \<longrightarrow>
       monitor_batch_progress py n polls = None"
    by (rule impI) (rule 2)
  have 6: "0 < n \<longrightarrow>
       (\<forall>k. \<exists>ws :: 'f poll list. length ws = k \<and> monitor_batch_progress py n ws = None \<and>
          (\<exists>p. monitor_batch_progress py n (ws @ [p]) \<noteq> None))"
    using 3 by blast
  show ?thesis by (rule conjI [OF 4 conjI [OF 5 6]])
qed

theorem monitor_waits_forever_witness:
  "finite {''calculation_0'', ''calculation_1''} \<and>
   int (card {''calculation_0'', ''calculation_1''}) = 2 \<and>
   succeeded_ids (take 2 example_polls) \<subseteq> {''calculation_0'', ''calculation_1''} \<and>
   ''calculation_1'' \<in> {''calculation_0'', ''calculation_1''} \<and>
   ''calculation_1'' \<notin> succeeded_ids (take 2 example_polls) \<and>
   monitor_batch_progress exact_python 2 (take 2 example_polls) = None"
proof -
  let ?R = "{''calculation_0'', ''calculation_1''}"
  have h: "finite ?R \<and> int (card ?R) = 2 \<and> succeeded_ids (take 2 example_polls) \<subseteq> ?R"
    by (simp add: example_polls_prefix_succeeded)
  have r: "\<exists>r \<in> ?R. r \<notin> succeeded_ids (take 2 example_polls)"
    by (simp add: example_polls_prefix_succeeded)
  from monitor_waits_forever [of ?R 2 "take 2 example_polls" exact_python,
      THEN conjunct1, THEN mp, OF h, THEN conjunct1, THEN mp, OF r]
  have "monitor_batch_progress exact_python 2 (take 2 example_polls) = None" .
  with h show ?thesis by (simp add: example_polls_prefix_succeeded)
qed

end
